theory Spec2Isabelle
  imports Complex_Main "HOL-Library.AList"
begin

section \<open>Wire data\<close>

text \<open>
  The snapshot is the parsed JSON object of one inbound frame. Only the fields read by the
  scene module and by the frame handler are kept; a field that may be missing on the wire
  is an option (\<open>None\<close> is JavaScript's \<open>undefined\<close>). JavaScript numbers are
  idealised as reals. Entity ids are strings, as the data model says, and are taken not to
  name an inherited property of a plain object (such as \<open>constructor\<close>).
\<close>

type_synonym vec3 = "real \<times> real \<times> real"

record crane =
  crane_id :: string
  base_x :: real
  base_y :: real
  mast_height :: real
  boom_length :: real
  slew_angle :: real
  luffing_angle :: real

record collision =
  crane_a_id :: string
  crane_b_id :: string
  alert_level :: string

record snapshot_status =
  crane_alerts :: "(string \<times> string) list option"

record message =
  error :: "string option"
  ack :: "bool option"
  status :: "snapshot_status option"
  cranes :: "crane list option"
  collisions :: "collision list option"

section \<open>The scene module (src/unnamed/part_000)\<close>

subsection \<open>State\<close>

text \<open>
  Objects of the render engine have identity; each one the module keeps a reference to is
  a handle (a natural number) taken from \<open>next_node\<close>. A Visual Object is the record
  stored in \<open>craneObjects\<close>: the root group (its handle and position), the boom group
  (position and rotation), the sizes of the mast and boom boxes, the tip marker, the
  working-radius ring and its material, and the three stored scalars. The 65-point outline
  of the working radius is fixed at creation like the rest of the geometry and is left out.
  \<open>craneObjects\<close> is a JavaScript object used as a dictionary: an association list in
  insertion order. \<open>scene\<close> lists the children that \<open>updateThreeScene\<close> adds to the
  engine's scene and removes from it: root groups and warning lines. The lights, the grid,
  the ground and the direction markers that \<open>initThreeScene\<close> adds are never touched
  again and are left out; \<open>isInitialized\<close> is the flag that \<open>initThreeScene\<close> sets when
  the page has the canvas container.
\<close>

record crane_obj =
  group :: nat
  group_position :: vec3
  boomGroup_position :: vec3
  boomGroup_rotation_y :: real
  boomGroup_rotation_z :: real
  mastGeom :: vec3
  boomGeom :: vec3
  tipMesh_position :: vec3
  tipMesh_color :: nat
  radiusGeom :: "real \<times> real"
  radiusMesh_color :: nat
  radiusMesh_opacity :: real
  color :: nat
  mastHeight :: real
  boomLength :: real

record warning_line =
  line_node :: nat
  pointA :: vec3
  pointB :: vec3
  line_color :: nat
  dashSize :: nat
  gapSize :: nat

datatype scene_node = Group_node nat | Line_node nat

record three_state =
  isInitialized :: bool
  scene :: "scene_node list"
  craneObjects :: "(string \<times> crane_obj) list"
  warningLines :: "warning_line list"
  next_node :: nat

subsection \<open>Constants\<close>

definition CRANE_COLORS :: "nat list" where
  "CRANE_COLORS = [0x4a90d9, 0xe67e22, 0x2ecc71, 0x9b59b6, 0xe74c3c, 0x1abc9c]"

definition ALERT_LEVEL_COLORS :: "string \<Rightarrow> nat option" where
  "ALERT_LEVEL_COLORS l =
     (if l = ''NORMAL'' then Some 0x00CC00
      else if l = ''CAUTION'' then Some 0xFFD700
      else if l = ''WARNING'' then Some 0xFF8C00
      else if l = ''DANGER'' then Some 0xFF0000
      else None)"

text \<open>\<open>a || b\<close> on a looked-up number: a missing entry and the number 0 are falsy.\<close>

definition js_or :: "nat option \<Rightarrow> nat \<Rightarrow> nat" where
  "js_or a b = (case a of None \<Rightarrow> b | Some v \<Rightarrow> if v = 0 then b else v)"

subsection \<open>createCraneObject\<close>

text \<open>
  \<open>newCraneObject\<close> is the object graph that \<open>createCraneObject\<close> builds, with \<open>g\<close>
  the handle of the new root group.
\<close>

definition newCraneObject :: "crane \<Rightarrow> nat \<Rightarrow> nat \<Rightarrow> crane_obj" where
  "newCraneObject craneData colorIndex g =
     (let col = CRANE_COLORS ! (colorIndex mod length CRANE_COLORS);
          baseX = base_x craneData;
          baseZ = base_y craneData;
          mastH = mast_height craneData;
          boomL = boom_length craneData
      in \<lparr> group = g,
           group_position = (baseX, 0, baseZ),
           boomGroup_position = (0, mastH, 0),
           boomGroup_rotation_y = 0,
           boomGroup_rotation_z = 0,
           mastGeom = (2, mastH, 2),
           boomGeom = (boomL, 12 / 10, 12 / 10),
           tipMesh_position = (boomL, 0, 0),
           tipMesh_color = 0xffffff,
           radiusGeom = (boomL - 1, boomL + 1),
           radiusMesh_color = col,
           radiusMesh_opacity = 15 / 100,
           color = col,
           mastHeight = mastH,
           boomLength = boomL \<rparr>)"

definition createCraneObject :: "crane \<Rightarrow> nat \<Rightarrow> three_state \<Rightarrow> three_state" where
  "createCraneObject craneData colorIndex s =
     s\<lparr> scene := scene s @ [Group_node (next_node s)],
        craneObjects :=
          AList.update (crane_id craneData) (newCraneObject craneData colorIndex (next_node s))
            (craneObjects s),
        next_node := Suc (next_node s) \<rparr>"

subsection \<open>updateCraneObject\<close>

text \<open>
  The writes of \<open>updateCraneObject\<close> on the object it found. \<open>alertLevel\<close> is the
  value of \<open>craneAlerts[craneData.id]\<close>; \<open>undefined\<close> and the empty string are falsy.
\<close>

definition writeCraneObject :: "crane \<Rightarrow> string option \<Rightarrow> crane_obj \<Rightarrow> crane_obj" where
  "writeCraneObject craneData alertLevel obj =
     (let slewRad = - slew_angle craneData * (pi / 180);
          luffRad = luffing_angle craneData * (pi / 180);
          obj1 = obj\<lparr> boomGroup_rotation_y := slewRad, boomGroup_rotation_z := luffRad \<rparr>
      in case alertLevel of
           None \<Rightarrow> obj1\<lparr> tipMesh_color := 0xffffff,
                          radiusMesh_color := color obj,
                          radiusMesh_opacity := 15 / 100 \<rparr>
         | Some l \<Rightarrow>
             if l \<noteq> '''' \<and> l \<noteq> ''NORMAL'' then
               (let alertColor = js_or (ALERT_LEVEL_COLORS l) (color obj);
                    obj2 = obj1\<lparr> tipMesh_color := alertColor \<rparr>
                in if l = ''DANGER'' \<or> l = ''WARNING''
                   then obj2\<lparr> radiusMesh_color := alertColor, radiusMesh_opacity := 25 / 100 \<rparr>
                   else obj2)
             else obj1\<lparr> tipMesh_color := 0xffffff,
                        radiusMesh_color := color obj,
                        radiusMesh_opacity := 15 / 100 \<rparr>)"

definition updateCraneObject :: "crane \<Rightarrow> string option \<Rightarrow> three_state \<Rightarrow> three_state" where
  "updateCraneObject craneData alertLevel s =
     (case map_of (craneObjects s) (crane_id craneData) of
        None \<Rightarrow> s
      | Some obj \<Rightarrow>
          s\<lparr> craneObjects :=
               AList.update (crane_id craneData) (writeCraneObject craneData alertLevel obj)
                 (craneObjects s) \<rparr>)"

subsection \<open>updateWarningLines\<close>

text \<open>
  \<open>getWorldPosition\<close> belongs to the render engine. It is a parameter: the world position
  of an object's tip marker as a function of the object's current record.
\<close>

definition drawWarningLine ::
  "(crane_obj \<Rightarrow> vec3) \<Rightarrow> collision \<Rightarrow> three_state \<Rightarrow> three_state" where
  "drawWarningLine getWorldPosition c s =
     (if alert_level c = ''NORMAL'' then s
      else case map_of (craneObjects s) (crane_a_id c) of
             None \<Rightarrow> s
           | Some objA \<Rightarrow>
               (case map_of (craneObjects s) (crane_b_id c) of
                  None \<Rightarrow> s
                | Some objB \<Rightarrow>
                    (let line = \<lparr> line_node = next_node s,
                                   pointA = getWorldPosition objA,
                                   pointB = getWorldPosition objB,
                                   line_color = js_or (ALERT_LEVEL_COLORS (alert_level c)) 0xFFFFFF,
                                   dashSize = 3,
                                   gapSize = 2 \<rparr>
                     in s\<lparr> scene := scene s @ [Line_node (line_node line)],
                            warningLines := warningLines s @ [line],
                            next_node := Suc (next_node s) \<rparr>)))"

definition updateWarningLines ::
  "(crane_obj \<Rightarrow> vec3) \<Rightarrow> collision list option \<Rightarrow> three_state \<Rightarrow> three_state" where
  "updateWarningLines getWorldPosition colls s =
     (let s1 = s\<lparr> scene := fold (\<lambda>l. remove1 (Line_node (line_node l))) (warningLines s) (scene s),
                   warningLines := [] \<rparr>
      in case colls of
           None \<Rightarrow> s1
         | Some cs \<Rightarrow> fold (drawWarningLine getWorldPosition) cs s1)"

subsection \<open>updateThreeScene\<close>

text \<open>The first loop: \<open>cranes.forEach((craneData, index) => ...)\<close>.\<close>

definition reconcileCrane ::
  "(string \<times> string) list \<Rightarrow> crane \<Rightarrow> nat \<Rightarrow> three_state \<Rightarrow> three_state" where
  "reconcileCrane craneAlerts craneData index s =
     updateCraneObject craneData (map_of craneAlerts (crane_id craneData))
       (if map_of (craneObjects s) (crane_id craneData) = None
        then createCraneObject craneData index s else s)"

fun reconcileCranes ::
  "(string \<times> string) list \<Rightarrow> crane list \<Rightarrow> nat \<Rightarrow> three_state \<Rightarrow> three_state" where
  "reconcileCranes craneAlerts [] index s = s"
| "reconcileCranes craneAlerts (craneData # rest) index s =
     reconcileCranes craneAlerts rest (Suc index) (reconcileCrane craneAlerts craneData index s)"

text \<open>
  The second loop runs over the keys the mapping had when the loop started. A key whose
  entry is already gone cannot occur for a JavaScript object; the model skips it.
\<close>

definition removeIfDeleted :: "crane list \<Rightarrow> string \<Rightarrow> three_state \<Rightarrow> three_state" where
  "removeIfDeleted cs k s =
     (if find (\<lambda>c. crane_id c = k) cs = None
      then (case map_of (craneObjects s) k of
              None \<Rightarrow> s
            | Some obj \<Rightarrow> s\<lparr> scene := remove1 (Group_node (group obj)) (scene s),
                              craneObjects := AList.delete k (craneObjects s) \<rparr>)
      else s)"

definition removeDeleted :: "crane list \<Rightarrow> three_state \<Rightarrow> three_state" where
  "removeDeleted cs s = fold (removeIfDeleted cs) (map fst (craneObjects s)) s"

text \<open>
  The three locals of \<open>updateThreeScene\<close>: \<open>state.cranes || []\<close>,
  \<open>state.collisions || []\<close> and \<open>state.status?.crane_alerts || {}\<close>.
\<close>

definition snapshot_cranes :: "message \<Rightarrow> crane list" where
  "snapshot_cranes state = (case cranes state of None \<Rightarrow> [] | Some xs \<Rightarrow> xs)"

definition snapshot_collisions :: "message \<Rightarrow> collision list" where
  "snapshot_collisions state = (case collisions state of None \<Rightarrow> [] | Some xs \<Rightarrow> xs)"

definition snapshot_craneAlerts :: "message \<Rightarrow> (string \<times> string) list" where
  "snapshot_craneAlerts state =
     (case status state of
        None \<Rightarrow> []
      | Some st \<Rightarrow> (case crane_alerts st of None \<Rightarrow> [] | Some al \<Rightarrow> al))"

text \<open>
  A parsed message is an object, hence truthy: of the guard \<open>!isInitialized || !state\<close>
  only the first half can hold.
\<close>

definition updateThreeScene ::
  "(crane_obj \<Rightarrow> vec3) \<Rightarrow> message \<Rightarrow> three_state \<Rightarrow> three_state" where
  "updateThreeScene getWorldPosition state s =
     (if \<not> isInitialized s then s
      else
        (let cs = snapshot_cranes state;
             colls = snapshot_collisions state;
             craneAlerts = snapshot_craneAlerts state;
             s1 = reconcileCranes craneAlerts cs 0 s;
             s2 = removeDeleted cs s1
         in updateWarningLines getWorldPosition (Some colls) s2))"

subsection \<open>Auxiliary notions\<close>

text \<open>
  What the first loop writes when every entity of the snapshot already has an object, and
  what a warning line shows (everything but its handle).
\<close>

definition writeAll ::
  "(string \<times> string) list \<Rightarrow> crane list \<Rightarrow> (string \<times> crane_obj) list \<Rightarrow> (string \<times> crane_obj) list" where
  "writeAll craneAlerts cs =
     fold (\<lambda>c. AList.map_entry (crane_id c)
                 (writeCraneObject c (map_of craneAlerts (crane_id c)))) cs"

definition line_shape :: "warning_line \<Rightarrow> vec3 \<times> vec3 \<times> nat \<times> nat \<times> nat" where
  "line_shape l = (pointA l, pointB l, line_color l, dashSize l, gapSize l)"

definition is_group :: "scene_node \<Rightarrow> bool" where
  "is_group n = (case n of Group_node _ \<Rightarrow> True | Line_node _ \<Rightarrow> False)"

definition live_ids :: "three_state \<Rightarrow> string set" where
  "live_ids s = fst ` set (craneObjects s)"

definition snapshot_ids :: "message \<Rightarrow> string set" where
  "snapshot_ids state = crane_id ` set (snapshot_cranes state)"

text \<open>
  The overlay in the words of the specification: one indicator for every Collision record
  that is not at NORMAL and whose two ids are both in the live mapping, from tip to tip, in
  the colour of the record's Alert Level, dashed 3 on 2 off. Of the four levels of the
  enumeration the ones other than NORMAL are the ones above it.
\<close>

definition shows_indicator :: "(string \<times> crane_obj) list \<Rightarrow> collision \<Rightarrow> bool" where
  "shows_indicator objs c =
     (alert_level c \<noteq> ''NORMAL'' \<and> map_of objs (crane_a_id c) \<noteq> None \<and>
      map_of objs (crane_b_id c) \<noteq> None)"

definition level_color :: "string \<Rightarrow> nat" where
  "level_color l = js_or (ALERT_LEVEL_COLORS l) 0xFFFFFF"

definition indicator ::
  "(crane_obj \<Rightarrow> vec3) \<Rightarrow> (string \<times> crane_obj) list \<Rightarrow> collision \<Rightarrow>
   vec3 \<times> vec3 \<times> nat \<times> nat \<times> nat" where
  "indicator g objs c =
     (g (the (map_of objs (crane_a_id c))), g (the (map_of objs (crane_b_id c))),
      level_color (alert_level c), 3, 2)"

definition expected_overlay ::
  "(crane_obj \<Rightarrow> vec3) \<Rightarrow> (string \<times> crane_obj) list \<Rightarrow> collision list \<Rightarrow>
   (vec3 \<times> vec3 \<times> nat \<times> nat \<times> nat) list" where
  "expected_overlay g objs colls = map (indicator g objs) (filter (shows_indicator objs) colls)"

text \<open>
  The part of a Visual Object that places and shapes it: everything except the boom
  rotation and the two alert-driven materials.
\<close>

definition placement_geometry ::
  "crane_obj \<Rightarrow> nat \<times> vec3 \<times> vec3 \<times> vec3 \<times> vec3 \<times> vec3 \<times> (real \<times> real) \<times> nat \<times> real \<times> real" where
  "placement_geometry obj =
     (group obj, group_position obj, boomGroup_position obj, mastGeom obj, boomGeom obj,
      tipMesh_position obj, radiusGeom obj, color obj, mastHeight obj, boomLength obj)"




section \<open>The transport channel (src/static/js/websocket-client.js)\<close>

subsection \<open>State\<close>

text \<open>
  The module's globals are \<open>ws\<close>, \<open>isConnected\<close>, \<open>reconnectTimer\<close> and
  \<open>lastData\<close>. The rest of the record is the part of the host the module acts on: the
  WebSocket objects it has constructed with their \<open>readyState\<close>, the pending timeouts
  (handle and delay in milliseconds), the element with id \<open>connection-status\<close>
  (\<open>None\<close> when the page has none) and the console. Socket and timer handles come from
  \<open>next_handle\<close>; a timer handle is a positive integer in a browser, hence truthy, so
  \<open>reconnectTimer\<close> is falsy exactly when it is \<open>None\<close>.
\<close>

datatype ready_state = CONNECTING | OPEN | CLOSING | CLOSED

datatype status_text = Text_connected | Text_disconnected | Text_other string

record status_el =
  textContent :: status_text
  className :: string

datatype log_entry =
    Log_connect_attempt
  | Error_create_failed
  | Log_connect_success
  | Warn_server_error string
  | Error_parse
  | Log_closed
  | Error_socket
  | Log_reconnect_attempt

record channel =
  ws :: "nat option"
  sockets :: "(nat \<times> ready_state) list"
  isConnected :: bool
  reconnectTimer :: "nat option"
  lastData :: "message option"
  timers :: "(nat \<times> nat) list"
  next_handle :: nat
  connection_status :: "status_el option"
  console :: "log_entry list"

definition RECONNECT_INTERVAL :: nat where
  "RECONNECT_INTERVAL = 3000"

subsection \<open>updateConnectionStatus and scheduleReconnect\<close>

definition updateConnectionStatus :: "bool \<Rightarrow> channel \<Rightarrow> channel" where
  "updateConnectionStatus is_connected c =
     (case connection_status c of
        None \<Rightarrow> c
      | Some statusEl \<Rightarrow>
          if is_connected
          then c\<lparr> connection_status :=
                    Some (statusEl\<lparr> textContent := Text_connected,
                                    className := ''status-connected'' \<rparr>) \<rparr>
          else c\<lparr> connection_status :=
                    Some (statusEl\<lparr> textContent := Text_disconnected,
                                    className := ''status-disconnected'' \<rparr>) \<rparr>)"

definition scheduleReconnect :: "channel \<Rightarrow> channel" where
  "scheduleReconnect c =
     (if reconnectTimer c \<noteq> None then c
      else c\<lparr> timers := timers c @ [(next_handle c, RECONNECT_INTERVAL)],
               reconnectTimer := Some (next_handle c),
               next_handle := Suc (next_handle c) \<rparr>)"

subsection \<open>connectWebSocket and the four handlers\<close>

text \<open>
  \<open>created\<close> says whether \<open>new WebSocket(wsUrl)\<close> returns (it may throw). The four
  handlers are attached to every socket the function constructs, and none of them reads
  the socket it is attached to.
\<close>

definition connectWebSocket :: "bool \<Rightarrow> channel \<Rightarrow> channel" where
  "connectWebSocket created c =
     (if (case ws c of None \<Rightarrow> False | Some h \<Rightarrow> map_of (sockets c) h = Some OPEN) then c
      else
        (let c1 = c\<lparr> console := console c @ [Log_connect_attempt] \<rparr>
         in if \<not> created
            then scheduleReconnect (c1\<lparr> console := console c1 @ [Error_create_failed] \<rparr>)
            else c1\<lparr> ws := Some (next_handle c1),
                      sockets := sockets c1 @ [(next_handle c1, CONNECTING)],
                      next_handle := Suc (next_handle c1) \<rparr>))"

definition clearTimeout :: "nat \<Rightarrow> channel \<Rightarrow> channel" where
  "clearTimeout t c = c\<lparr> timers := filter (\<lambda>p. fst p \<noteq> t) (timers c) \<rparr>"

definition onopen :: "channel \<Rightarrow> channel" where
  "onopen c =
     (let c1 = updateConnectionStatus True
                 (c\<lparr> console := console c @ [Log_connect_success], isConnected := True \<rparr>)
      in case reconnectTimer c1 of
           None \<Rightarrow> c1
         | Some t \<Rightarrow> (clearTimeout t c1)\<lparr> reconnectTimer := None \<rparr>)"

definition onclose :: "channel \<Rightarrow> channel" where
  "onclose c =
     scheduleReconnect
       (updateConnectionStatus False
          (c\<lparr> console := console c @ [Log_closed], isConnected := False \<rparr>))"

definition onerror :: "channel \<Rightarrow> channel" where
  "onerror c =
     updateConnectionStatus False
       (c\<lparr> console := console c @ [Error_socket], isConnected := False \<rparr>)"

text \<open>The callback that \<open>scheduleReconnect\<close> hands to \<open>setTimeout\<close>.\<close>

definition reconnectCallback :: "bool \<Rightarrow> channel \<Rightarrow> channel" where
  "reconnectCallback created c =
     connectWebSocket created
       (c\<lparr> reconnectTimer := None, console := console c @ [Log_reconnect_attempt] \<rparr>)"

section \<open>The dispatcher (src/static/js/main.js) and the frame handler\<close>

text \<open>
  The panel renderers write DOM text only. Each call is recorded with the snapshot it was
  given, in the order \<open>onDataReceived\<close> makes them.
\<close>

datatype panel =
    StatusSummary | CollisionTable | AlertMessages | EventLog | CraneSelector | SelectedCraneInfo

record app =
  chan :: channel
  three :: three_state
  currentState :: "message option"
  panel_calls :: "(panel \<times> message) list"

definition onDataReceived :: "(crane_obj \<Rightarrow> vec3) \<Rightarrow> message \<Rightarrow> app \<Rightarrow> app" where
  "onDataReceived getWorldPosition state a =
     a\<lparr> currentState := Some state,
        three := updateThreeScene getWorldPosition state (three a),
        panel_calls := panel_calls a @
          map (\<lambda>p. (p, state))
            [StatusSummary, CollisionTable, AlertMessages, EventLog, CraneSelector,
             SelectedCraneInfo] \<rparr>"

text \<open>
  \<open>JSON_parse\<close> is the host's parser: \<open>None\<close> when \<open>JSON.parse\<close> throws. A string
  field is truthy when it is present and not empty, a boolean field when it is \<open>true\<close>.
\<close>

definition truthy_string :: "string option \<Rightarrow> bool" where
  "truthy_string v = (case v of None \<Rightarrow> False | Some x \<Rightarrow> x \<noteq> [])"

definition truthy_bool :: "bool option \<Rightarrow> bool" where
  "truthy_bool v = (case v of None \<Rightarrow> False | Some b \<Rightarrow> b)"

definition onmessage ::
  "(string \<Rightarrow> message option) \<Rightarrow> (crane_obj \<Rightarrow> vec3) \<Rightarrow> string \<Rightarrow> app \<Rightarrow> app" where
  "onmessage JSON_parse getWorldPosition event_data a =
     (case JSON_parse event_data of
        None \<Rightarrow> a\<lparr> chan := (chan a)\<lparr> console := console (chan a) @ [Error_parse] \<rparr> \<rparr>
      | Some data \<Rightarrow>
          (let a1 = a\<lparr> chan := (chan a)\<lparr> lastData := Some data \<rparr> \<rparr>
           in if truthy_string (error data)
              then a1\<lparr> chan := (chan a1)\<lparr> console := console (chan a1) @
                       [Warn_server_error (case error data of None \<Rightarrow> [] | Some e \<Rightarrow> e)] \<rparr> \<rparr>
              else if truthy_bool (ack data) then a1
              else onDataReceived getWorldPosition data a1))"

subsection \<open>Events of the host\<close>

text \<open>
  The browser sets a socket's \<open>readyState\<close> before it calls the handler: \<open>OPEN\<close> for an
  open event, \<open>CLOSED\<close> for a close event. A timeout that fires is no longer pending when
  its callback runs. \<open>Ev_load\<close> is the call of \<open>connectWebSocket\<close> at page load. The
  events are not restricted to the order in which a browser produces them.
\<close>

datatype event =
    Ev_load bool
  | Ev_open nat
  | Ev_close nat
  | Ev_error nat
  | Ev_message nat string
  | Ev_timeout nat bool

definition set_readyState :: "nat \<Rightarrow> ready_state \<Rightarrow> channel \<Rightarrow> channel" where
  "set_readyState h r c = c\<lparr> sockets := AList.map_entry h (\<lambda>_. r) (sockets c) \<rparr>"

fun deliver ::
  "(string \<Rightarrow> message option) \<Rightarrow> (crane_obj \<Rightarrow> vec3) \<Rightarrow> event \<Rightarrow> app \<Rightarrow> app" where
  "deliver JSON_parse g (Ev_load created) a = a\<lparr> chan := connectWebSocket created (chan a) \<rparr>"
| "deliver JSON_parse g (Ev_open h) a = a\<lparr> chan := onopen (set_readyState h OPEN (chan a)) \<rparr>"
| "deliver JSON_parse g (Ev_close h) a = a\<lparr> chan := onclose (set_readyState h CLOSED (chan a)) \<rparr>"
| "deliver JSON_parse g (Ev_error h) a = a\<lparr> chan := onerror (chan a) \<rparr>"
| "deliver JSON_parse g (Ev_message h event_data) a = onmessage JSON_parse g event_data a"
| "deliver JSON_parse g (Ev_timeout t created) a =
     (if t \<in> fst ` set (timers (chan a))
      then a\<lparr> chan := reconnectCallback created (clearTimeout t (chan a)) \<rparr>
      else a)"

definition channel_init :: "status_el option \<Rightarrow> channel" where
  "channel_init el =
     \<lparr> ws = None, sockets = [], isConnected = False, reconnectTimer = None, lastData = None,
       timers = [], next_handle = 1, connection_status = el, console = [] \<rparr>"

inductive reachable ::
  "(string \<Rightarrow> message option) \<Rightarrow> (crane_obj \<Rightarrow> vec3) \<Rightarrow> app \<Rightarrow> bool"
  for JSON_parse :: "string \<Rightarrow> message option" and g :: "crane_obj \<Rightarrow> vec3" where
    reachable_init: "chan a = channel_init el \<Longrightarrow> reachable JSON_parse g a"
  | reachable_step: "reachable JSON_parse g a \<Longrightarrow> reachable JSON_parse g (deliver JSON_parse g ev a)"

section \<open>Invariant of the transport channel\<close>

text \<open>
  The pending timeouts are exactly the one whose handle \<open>reconnectTimer\<close> holds, with the
  reconnect delay, or none when \<open>reconnectTimer\<close> is \<open>null\<close>.
\<close>

definition timer_inv :: "channel \<Rightarrow> bool" where
  "timer_inv c =
     (timers c = (case reconnectTimer c of None \<Rightarrow> [] | Some t \<Rightarrow> [(t, RECONNECT_INTERVAL)]))"

text \<open>What \<open>updateConnectionStatus(false)\<close> leaves in the status element.\<close>

definition shown_disconnected :: "status_el \<Rightarrow> status_el" where
  "shown_disconnected el = el\<lparr> textContent := Text_disconnected, className := ''status-disconnected'' \<rparr>"

section \<open>Sample inputs\<close>

text \<open>
  A world position for the tip marker that follows the engine's conventions (the boom group
  sits on the root group, rotations are applied in the order X, Y, Z, and the marker sits at
  the end of the boom), three cranes, snapshots built from them, and states of the scene
  module and of the channel.
\<close>

definition tipWorldPosition :: "crane_obj \<Rightarrow> vec3" where
  "tipWorldPosition obj =
     (case (group_position obj, boomGroup_position obj, tipMesh_position obj) of
        ((gx, gy, gz), (px, py, pz), (l, _, _)) \<Rightarrow>
          (gx + px + l * cos (boomGroup_rotation_z obj) * cos (boomGroup_rotation_y obj),
           gy + py + l * sin (boomGroup_rotation_z obj),
           gz + pz - l * cos (boomGroup_rotation_z obj) * sin (boomGroup_rotation_y obj)))"

definition crane_A :: crane where
  "crane_A = \<lparr> crane_id = ''A'', base_x = 10, base_y = 20, mast_height = 40, boom_length = 30,
               slew_angle = 0, luffing_angle = 0 \<rparr>"

definition crane_A_moved :: crane where
  "crane_A_moved = \<lparr> crane_id = ''A'', base_x = 99, base_y = 77, mast_height = 5, boom_length = 6,
                     slew_angle = 0, luffing_angle = 0 \<rparr>"

definition crane_B :: crane where
  "crane_B = \<lparr> crane_id = ''B'', base_x = 60, base_y = 20, mast_height = 50, boom_length = 25,
               slew_angle = 0, luffing_angle = 0 \<rparr>"

definition crane_C :: crane where
  "crane_C = \<lparr> crane_id = ''C'', base_x = 0, base_y = 0, mast_height = 30, boom_length = 20,
               slew_angle = 45, luffing_angle = 30 \<rparr>"

definition sample_snapshot ::
  "crane list \<Rightarrow> (string \<times> string) list \<Rightarrow> collision list \<Rightarrow> message" where
  "sample_snapshot cs al colls =
     \<lparr> error = None, ack = None, status = Some \<lparr> crane_alerts = Some al \<rparr>,
       cranes = Some cs, collisions = Some colls \<rparr>"

definition snap_C :: message where
  "snap_C = sample_snapshot [crane_C] [] []"

definition snap_AB :: "string \<Rightarrow> message" where
  "snap_AB level =
     sample_snapshot [crane_A, crane_B] [(''A'', level), (''B'', level)]
       [\<lparr> crane_a_id = ''A'', crane_b_id = ''B'', alert_level = level \<rparr>]"

definition snap_A :: "string \<Rightarrow> message" where
  "snap_A level = sample_snapshot [crane_A] [(''A'', level)] []"

definition snap_A_moved :: message where
  "snap_A_moved = sample_snapshot [crane_A_moved] [] []"

definition scene_ready :: three_state where
  "scene_ready = \<lparr> isInitialized = True, scene = [], craneObjects = [], warningLines = [],
                   next_node = 0 \<rparr>"

definition scene_with_A :: three_state where
  "scene_with_A =
     \<lparr> isInitialized = True, scene = [Group_node 0],
       craneObjects = [(''A'', newCraneObject crane_A 0 0)], warningLines = [], next_node = 1 \<rparr>"

definition status_el0 :: status_el where
  "status_el0 = \<lparr> textContent = Text_other ''-'', className = [] \<rparr>"

definition chan_connecting :: channel where
  "chan_connecting =
     \<lparr> ws = Some 1, sockets = [(1, CONNECTING)], isConnected = False, reconnectTimer = None,
       lastData = None, timers = [], next_handle = 2, connection_status = Some status_el0,
       console = [Log_connect_attempt] \<rparr>"

definition chan_open :: channel where
  "chan_open =
     \<lparr> ws = Some 1, sockets = [(1, OPEN)], isConnected = True, reconnectTimer = None,
       lastData = None, timers = [], next_handle = 2,
       connection_status = Some \<lparr> textContent = Text_connected, className = ''status-connected'' \<rparr>,
       console = [Log_connect_attempt, Log_connect_success] \<rparr>"

definition sample_parse :: "string \<Rightarrow> message option" where
  "sample_parse event_data = (if event_data = ''{}'' then Some (sample_snapshot [] [] []) else None)"

definition app_start :: app where
  "app_start = \<lparr> chan = channel_init (Some status_el0), three = scene_ready, currentState = None,
                 panel_calls = [] \<rparr>"

definition app_open :: app where
  "app_open = \<lparr> chan = chan_open, three = scene_with_A, currentState = None, panel_calls = [] \<rparr>"


definition app_connecting :: app where
  "app_connecting = \<lparr> chan = chan_connecting, three = scene_ready, currentState = None,
                      panel_calls = [] \<rparr>"

definition app_closed :: app where
  "app_closed =
     deliver sample_parse tipWorldPosition (Ev_close 1)
       (deliver sample_parse tipWorldPosition (Ev_load True) app_start)"

section \<open>Properties of the scene module\<close>

subsection \<open>The ids of the live mapping\<close>

lemma keys_createCraneObject:
  "fst ` set (craneObjects (createCraneObject c i s)) = insert (crane_id c) (fst ` set (craneObjects s))"
  by (simp add: createCraneObject_def dom_update)

lemma update_map_entry:
  "map_of xs k = Some v \<Longrightarrow> AList.update k (f v) xs = AList.map_entry k f xs"
  by (induction xs) auto

lemma map_entry_absent: "map_of xs k = None \<Longrightarrow> AList.map_entry k f xs = xs"
  by (induction xs) auto

lemma craneObjects_updateCraneObject:
  "craneObjects (updateCraneObject c a s) =
     AList.map_entry (crane_id c) (writeCraneObject c a) (craneObjects s)"
  by (simp add: updateCraneObject_def update_map_entry map_entry_absent split: option.splits)

lemma keys_updateCraneObject:
  "fst ` set (craneObjects (updateCraneObject c a s)) = fst ` set (craneObjects s)"
  by (simp add: craneObjects_updateCraneObject dom_map_entry)

lemma keys_reconcileCrane:
  "fst ` set (craneObjects (reconcileCrane al c i s)) = insert (crane_id c) (fst ` set (craneObjects s))"
  by (auto simp: reconcileCrane_def keys_updateCraneObject keys_createCraneObject map_of_eq_None_iff)

lemma keys_reconcileCranes:
  "fst ` set (craneObjects (reconcileCranes al cs i s)) = fst ` set (craneObjects s) \<union> crane_id ` set cs"
  by (induction cs arbitrary: i s) (auto simp: keys_reconcileCrane)

lemma find_None_crane: "(find (\<lambda>c. crane_id c = k) cs = None) = (k \<notin> crane_id ` set cs)"
  by (auto simp: find_None_iff)

lemma craneObjects_removeIfDeleted:
  "craneObjects (removeIfDeleted cs k s) =
     (if k \<in> crane_id ` set cs then craneObjects s else AList.delete k (craneObjects s))"
  by (auto simp: removeIfDeleted_def find_None_crane map_of_eq_None_iff split: option.splits)

lemma craneObjects_fold_removeIfDeleted:
  "craneObjects (fold (removeIfDeleted cs) ks s) =
     filter (\<lambda>p. fst p \<in> crane_id ` set cs \<or> fst p \<notin> set ks) (craneObjects s)"
proof (induction ks arbitrary: s)
  case Nil
  then show ?case by simp
next
  case (Cons k ks)
  show ?case
    by (auto simp: Cons craneObjects_removeIfDeleted AList.delete_eq intro!: filter_cong)
qed

lemma craneObjects_removeDeleted:
  "craneObjects (removeDeleted cs s) = filter (\<lambda>p. fst p \<in> crane_id ` set cs) (craneObjects s)"
  by (auto simp: removeDeleted_def craneObjects_fold_removeIfDeleted intro!: filter_cong)

lemma craneObjects_drawWarningLine [simp]:
  "craneObjects (drawWarningLine g c s) = craneObjects s"
  by (simp add: drawWarningLine_def Let_def split: option.splits)

lemma craneObjects_fold_drawWarningLine [simp]:
  "craneObjects (fold (drawWarningLine g) cs s) = craneObjects s"
  by (induction cs arbitrary: s) simp_all

lemma craneObjects_updateWarningLines [simp]:
  "craneObjects (updateWarningLines g colls s) = craneObjects s"
  by (simp add: updateWarningLines_def Let_def split: option.splits)

lemma keys_filter: "fst ` set (filter (\<lambda>p. fst p \<in> A) xs) = fst ` set xs \<inter> A"
  by auto

lemma craneObjects_updateThreeScene:
  "isInitialized s \<Longrightarrow>
   craneObjects (updateThreeScene g state s) =
     filter (\<lambda>p. fst p \<in> snapshot_ids state)
       (craneObjects (reconcileCranes (snapshot_craneAlerts state) (snapshot_cranes state) 0 s))"
  by (simp add: updateThreeScene_def Let_def craneObjects_removeDeleted snapshot_ids_def)


subsection \<open>Running the first loop twice\<close>

lemma map_entry_absorb:
  "(\<And>v. f (h v) = f v) \<Longrightarrow> AList.map_entry k f (AList.map_entry k h xs) = AList.map_entry k f xs"
  by (induction xs) auto

lemma map_entry_commute:
  "k \<noteq> k' \<Longrightarrow>
   AList.map_entry k f (AList.map_entry k' h xs) = AList.map_entry k' h (AList.map_entry k f xs)"
  by (induction xs) auto

lemma map_entry_append_in:
  "k \<in> fst ` set xs \<Longrightarrow> AList.map_entry k f (xs @ ys) = AList.map_entry k f xs @ ys"
  by (induction xs) auto

lemma map_entry_filter:
  "k \<in> A \<Longrightarrow>
   filter (\<lambda>p. fst p \<in> A) (AList.map_entry k f xs) = AList.map_entry k f (filter (\<lambda>p. fst p \<in> A) xs)"
  by (induction xs) auto

lemma update_absent: "k \<notin> fst ` set xs \<Longrightarrow> AList.update k v xs = xs @ [(k, v)]"
  by (induction xs) auto

lemma color_writeCraneObject [simp]: "color (writeCraneObject c a obj) = color obj"
  by (simp add: writeCraneObject_def Let_def split: option.splits)

lemma writeCraneObject_absorb:
  "writeCraneObject c a (writeCraneObject c' a obj) = writeCraneObject c a obj"
  by (simp add: writeCraneObject_def Let_def split: option.splits)

lemma writeAll_Nil [simp]: "writeAll al [] X = X"
  by (simp add: writeAll_def)

lemma writeAll_Cons [simp]:
  "writeAll al (c # cs) X =
     writeAll al cs (AList.map_entry (crane_id c) (writeCraneObject c (map_of al (crane_id c))) X)"
  by (simp add: writeAll_def)

lemma writeAll_snoc:
  "writeAll al (cs @ [c]) X =
     AList.map_entry (crane_id c) (writeCraneObject c (map_of al (crane_id c))) (writeAll al cs X)"
  by (simp add: writeAll_def)

lemma keys_writeAll [simp]: "fst ` set (writeAll al cs X) = fst ` set X"
  by (induction cs arbitrary: X) (simp_all add: dom_map_entry)

lemma writeAll_append:
  "crane_id ` set cs \<subseteq> fst ` set X \<Longrightarrow> writeAll al cs (X @ ys) = writeAll al cs X @ ys"
  by (induction cs arbitrary: X) (simp_all add: map_entry_append_in dom_map_entry)

lemma writeAll_filter:
  "crane_id ` set cs \<subseteq> A \<Longrightarrow>
   writeAll al cs (filter (\<lambda>p. fst p \<in> A) X) = filter (\<lambda>p. fst p \<in> A) (writeAll al cs X)"
  by (induction cs arbitrary: X) (simp_all add: map_entry_filter [symmetric])

lemma writeAll_absorb:
  "AList.map_entry (crane_id c) (writeCraneObject c (map_of al (crane_id c)))
     (writeAll al cs (AList.map_entry (crane_id c) (writeCraneObject c (map_of al (crane_id c))) X)) =
   AList.map_entry (crane_id c) (writeCraneObject c (map_of al (crane_id c))) (writeAll al cs X)"
proof (induction cs arbitrary: X)
  case Nil
  show ?case by (simp add: map_entry_absorb writeCraneObject_absorb)
next
  case (Cons d cs)
  show ?case
  proof (cases "crane_id d = crane_id c")
    case True
    then show ?thesis by (simp add: map_entry_absorb writeCraneObject_absorb)
  next
    case False
    then show ?thesis
      using Cons [of "AList.map_entry (crane_id d) (writeCraneObject d (map_of al (crane_id d))) X"]
      by (simp add: map_entry_commute [of "crane_id d" "crane_id c"])
  qed
qed

lemma reconcileCranes_snoc:
  "reconcileCranes al (cs @ [c]) i s = reconcileCrane al c (i + length cs) (reconcileCranes al cs i s)"
  by (induction cs arbitrary: i s) simp_all

lemma craneObjects_reconcileCrane:
  "craneObjects (reconcileCrane al c i s) =
     AList.map_entry (crane_id c) (writeCraneObject c (map_of al (crane_id c)))
       (if crane_id c \<in> fst ` set (craneObjects s) then craneObjects s
        else craneObjects s @ [(crane_id c, newCraneObject c i (next_node s))])"
  by (auto simp: reconcileCrane_def craneObjects_updateCraneObject createCraneObject_def
      map_of_eq_None_iff update_absent)

lemma writeAll_reconcileCranes:
  "writeAll al cs (craneObjects (reconcileCranes al cs i s)) = craneObjects (reconcileCranes al cs i s)"
proof (induction cs rule: rev_induct)
  case Nil
  show ?case by simp
next
  case (snoc c cs)
  let ?s' = "reconcileCranes al cs i s"
  let ?X = "craneObjects ?s'"
  let ?u = "AList.map_entry (crane_id c) (writeCraneObject c (map_of al (crane_id c)))"
  let ?X' = "if crane_id c \<in> fst ` set ?X then ?X
             else ?X @ [(crane_id c, newCraneObject c (i + length cs) (next_node ?s'))]"
  have ids: "crane_id ` set cs \<subseteq> fst ` set ?X"
    by (simp add: keys_reconcileCranes)
  have fixp: "writeAll al cs ?X' = ?X'"
    using snoc ids by (simp add: writeAll_append)
  have "writeAll al (cs @ [c]) (?u ?X') = ?u (writeAll al cs (?u ?X'))"
    by (rule writeAll_snoc)
  also have "\<dots> = ?u (writeAll al cs ?X')"
    by (rule writeAll_absorb)
  also have "\<dots> = ?u ?X'"
    by (simp only: fixp)
  finally show ?case
    by (simp only: reconcileCranes_snoc craneObjects_reconcileCrane)
qed

lemma updateCraneObject_eq:
  "updateCraneObject c a s =
     s\<lparr> craneObjects := AList.map_entry (crane_id c) (writeCraneObject c a) (craneObjects s) \<rparr>"
  by (simp add: updateCraneObject_def update_map_entry map_entry_absent split: option.splits)

lemma reconcileCranes_present:
  "crane_id ` set cs \<subseteq> fst ` set (craneObjects s) \<Longrightarrow>
   reconcileCranes al cs i s = s\<lparr> craneObjects := writeAll al cs (craneObjects s) \<rparr>"
proof (induction cs arbitrary: i s)
  case Nil
  show ?case by simp
next
  case (Cons c cs)
  from Cons.prems have here: "map_of (craneObjects s) (crane_id c) \<noteq> None"
    by (simp add: map_of_eq_None_iff)
  let ?s' = "s\<lparr> craneObjects := AList.map_entry (crane_id c)
                  (writeCraneObject c (map_of al (crane_id c))) (craneObjects s) \<rparr>"
  have step: "reconcileCrane al c i s = ?s'"
    using here by (auto simp: reconcileCrane_def updateCraneObject_eq)
  have "crane_id ` set cs \<subseteq> fst ` set (craneObjects ?s')"
    using Cons.prems by (simp add: dom_map_entry)
  from Cons.IH [OF this] show ?case
    by (simp add: step)
qed

lemma removeIfDeleted_present: "k \<in> crane_id ` set cs \<Longrightarrow> removeIfDeleted cs k s = s"
  by (simp add: removeIfDeleted_def find_None_crane)

lemma fold_removeIfDeleted_present:
  "set ks \<subseteq> crane_id ` set cs \<Longrightarrow> fold (removeIfDeleted cs) ks s = s"
  by (induction ks arbitrary: s) (simp_all add: removeIfDeleted_present)

lemma removeDeleted_present:
  "fst ` set (craneObjects s) \<subseteq> crane_id ` set cs \<Longrightarrow> removeDeleted cs s = s"
  by (simp add: removeDeleted_def fold_removeIfDeleted_present)

lemma reconcile_fixpoint:
  assumes "craneObjects s1 =
             filter (\<lambda>p. fst p \<in> crane_id ` set cs) (craneObjects (reconcileCranes al cs i s))"
  shows "removeDeleted cs (reconcileCranes al cs j s1) = s1"
proof -
  let ?Y = "craneObjects (reconcileCranes al cs i s)"
  have keys: "fst ` set (craneObjects s1) = crane_id ` set cs"
    unfolding assms keys_filter by (auto simp: keys_reconcileCranes)
  have "writeAll al cs (craneObjects s1) = filter (\<lambda>p. fst p \<in> crane_id ` set cs) (writeAll al cs ?Y)"
    unfolding assms by (rule writeAll_filter) simp
  also have "\<dots> = craneObjects s1"
    by (simp only: writeAll_reconcileCranes assms)
  finally have "reconcileCranes al cs j s1 = s1"
    using keys by (simp add: reconcileCranes_present)
  then show ?thesis
    using keys by (simp add: removeDeleted_present)
qed

lemma isInitialized_drawWarningLine [simp]: "isInitialized (drawWarningLine g c s) = isInitialized s"
  by (simp add: drawWarningLine_def Let_def split: option.splits)

lemma isInitialized_fold_drawWarningLine [simp]:
  "isInitialized (fold (drawWarningLine g) cs s) = isInitialized s"
  by (induction cs arbitrary: s) simp_all

lemma isInitialized_updateWarningLines [simp]:
  "isInitialized (updateWarningLines g colls s) = isInitialized s"
  by (simp add: updateWarningLines_def Let_def split: option.splits)

lemma isInitialized_reconcileCrane [simp]: "isInitialized (reconcileCrane al c i s) = isInitialized s"
  by (simp add: reconcileCrane_def updateCraneObject_eq createCraneObject_def)

lemma isInitialized_reconcileCranes [simp]:
  "isInitialized (reconcileCranes al cs i s) = isInitialized s"
  by (induction cs arbitrary: i s) simp_all

lemma isInitialized_removeIfDeleted [simp]: "isInitialized (removeIfDeleted cs k s) = isInitialized s"
  by (simp add: removeIfDeleted_def split: option.splits)

lemma isInitialized_fold_removeIfDeleted [simp]:
  "isInitialized (fold (removeIfDeleted cs) ks s) = isInitialized s"
  by (induction ks arbitrary: s) simp_all

lemma isInitialized_updateThreeScene [simp]:
  "isInitialized (updateThreeScene g state s) = isInitialized s"
  by (simp add: updateThreeScene_def Let_def removeDeleted_def)

lemma updateThreeScene_twice:
  "updateThreeScene g state (updateThreeScene g state s) =
     (if isInitialized s
      then updateWarningLines g (Some (snapshot_collisions state)) (updateThreeScene g state s)
      else s)"
proof (cases "isInitialized s")
  case False
  then show ?thesis by (simp add: updateThreeScene_def)
next
  case True
  let ?s1 = "updateThreeScene g state s"
  have "craneObjects ?s1 =
          filter (\<lambda>p. fst p \<in> crane_id ` set (snapshot_cranes state))
            (craneObjects (reconcileCranes (snapshot_craneAlerts state) (snapshot_cranes state) 0 s))"
    using True by (simp add: craneObjects_updateThreeScene snapshot_ids_def)
  then have "removeDeleted (snapshot_cranes state)
               (reconcileCranes (snapshot_craneAlerts state) (snapshot_cranes state) 0 ?s1) = ?s1"
    by (rule reconcile_fixpoint)
  moreover have "isInitialized ?s1"
    using True by simp
  ultimately show ?thesis
    using True by (simp add: updateThreeScene_def [of g state ?s1] Let_def)
qed

subsection \<open>The overlay\<close>

lemma shape_drawWarningLine:
  "map line_shape (warningLines (drawWarningLine g c s)) =
     map line_shape (warningLines s) @ expected_overlay g (craneObjects s) [c]"
  by (auto simp: drawWarningLine_def Let_def expected_overlay_def shows_indicator_def indicator_def
      line_shape_def level_color_def split: option.splits)

lemma expected_overlay_Cons:
  "expected_overlay g objs (c # cs) = expected_overlay g objs [c] @ expected_overlay g objs cs"
  by (simp add: expected_overlay_def)

lemma shape_fold_drawWarningLine:
  "map line_shape (warningLines (fold (drawWarningLine g) cs s)) =
     map line_shape (warningLines s) @ expected_overlay g (craneObjects s) cs"
proof (induction cs arbitrary: s)
  case Nil
  show ?case by (simp add: expected_overlay_def)
next
  case (Cons c cs)
  show ?case
    by (simp add: Cons shape_drawWarningLine expected_overlay_Cons [of g _ c cs])
qed

lemma shape_updateWarningLines:
  "map line_shape (warningLines (updateWarningLines g (Some cs) s)) =
     expected_overlay g (craneObjects s) cs"
  by (simp add: updateWarningLines_def Let_def shape_fold_drawWarningLine)

lemma shape_updateThreeScene:
  "isInitialized s \<Longrightarrow>
   map line_shape (warningLines (updateThreeScene g state s)) =
     expected_overlay g (craneObjects (updateThreeScene g state s)) (snapshot_collisions state)"
  by (simp add: updateThreeScene_def Let_def shape_updateWarningLines)

lemma next_node_drawWarningLine: "next_node s \<le> next_node (drawWarningLine g c s)"
  by (simp add: drawWarningLine_def Let_def split: option.splits)

lemma next_node_fold_drawWarningLine: "next_node s \<le> next_node (fold (drawWarningLine g) cs s)"
proof (induction cs arbitrary: s)
  case Nil
  show ?case by simp
next
  case (Cons c cs)
  have "next_node s \<le> next_node (drawWarningLine g c s)"
    by (rule next_node_drawWarningLine)
  also have "\<dots> \<le> next_node (fold (drawWarningLine g) cs (drawWarningLine g c s))"
    by (rule Cons)
  finally show ?case by simp
qed






lemma next_node_removeIfDeleted [simp]: "next_node (removeIfDeleted cs k s) = next_node s"
  by (simp add: removeIfDeleted_def split: option.splits)

lemma next_node_fold_removeIfDeleted [simp]:
  "next_node (fold (removeIfDeleted cs) ks s) = next_node s"
  by (induction ks arbitrary: s) simp_all

lemma next_node_removeDeleted [simp]: "next_node (removeDeleted cs s) = next_node s"
  by (simp add: removeDeleted_def)


subsection \<open>Group nodes of the scene\<close>

lemma is_group_remove1_line: "filter is_group (remove1 (Line_node h) xs) = filter is_group xs"
  by (induction xs) (auto simp: is_group_def)

lemma is_group_fold_remove1:
  "filter is_group (fold (\<lambda>l. remove1 (Line_node (line_node l))) ls xs) = filter is_group xs"
  by (induction ls arbitrary: xs) (simp_all add: is_group_remove1_line)

lemma groups_drawWarningLine [simp]:
  "filter is_group (scene (drawWarningLine g c s)) = filter is_group (scene s)"
  by (simp add: drawWarningLine_def Let_def is_group_def split: option.splits)

lemma groups_fold_drawWarningLine [simp]:
  "filter is_group (scene (fold (drawWarningLine g) cs s)) = filter is_group (scene s)"
  by (induction cs arbitrary: s) simp_all

lemma groups_updateWarningLines:
  "filter is_group (scene (updateWarningLines g colls s)) = filter is_group (scene s)"
  by (simp add: updateWarningLines_def Let_def is_group_fold_remove1 split: option.splits)

subsection \<open>Placement and geometry\<close>

lemma placement_geometry_writeCraneObject [simp]:
  "placement_geometry (writeCraneObject c a obj) = placement_geometry obj"
  by (simp add: placement_geometry_def writeCraneObject_def Let_def split: option.splits)

lemma map_of_map_entry_same:
  "map_of (AList.map_entry k f xs) k = map_option f (map_of xs k)"
  by (induction xs) auto

lemma map_of_map_entry_other:
  "k' \<noteq> k \<Longrightarrow> map_of (AList.map_entry k f xs) k' = map_of xs k'"
  by (induction xs) auto

lemma map_of_reconcileCrane_other:
  "crane_id c \<noteq> k \<Longrightarrow> map_of (craneObjects (reconcileCrane al c i s)) k = map_of (craneObjects s) k"
  by (auto simp: craneObjects_reconcileCrane map_of_map_entry_other map_add_def split: option.splits)

lemma map_of_reconcileCrane_present:
  "map_of (craneObjects s) (crane_id c) = Some obj \<Longrightarrow>
   map_of (craneObjects (reconcileCrane al c i s)) (crane_id c) =
     Some (writeCraneObject c (map_of al (crane_id c)) obj)"
  by (auto simp: craneObjects_reconcileCrane map_of_map_entry_same map_of_eq_None_iff)

lemma placement_reconcileCrane:
  "map_of (craneObjects s) k = Some obj \<Longrightarrow>
   \<exists>obj'. map_of (craneObjects (reconcileCrane al c i s)) k = Some obj' \<and>
          placement_geometry obj' = placement_geometry obj"
  by (cases "crane_id c = k") (auto simp: map_of_reconcileCrane_other map_of_reconcileCrane_present)

lemma placement_reconcileCranes:
  "map_of (craneObjects s) k = Some obj \<Longrightarrow>
   \<exists>obj'. map_of (craneObjects (reconcileCranes al cs i s)) k = Some obj' \<and>
          placement_geometry obj' = placement_geometry obj"
proof (induction cs arbitrary: i s obj)
  case Nil
  then show ?case by simp
next
  case (Cons c cs)
  from placement_reconcileCrane [OF Cons.prems, of al c i]
  obtain obj1 where 1: "map_of (craneObjects (reconcileCrane al c i s)) k = Some obj1"
    and 2: "placement_geometry obj1 = placement_geometry obj"
    by blast
  from Cons.IH [OF 1, of "Suc i"] 2 show ?case by simp
qed

lemma map_of_filter_keys:
  "map_of (filter (\<lambda>p. fst p \<in> A) xs) k = (if k \<in> A then map_of xs k else None)"
  by (induction xs) auto

lemma placement_updateThreeScene:
  assumes "map_of (craneObjects s) k = Some obj" and "k \<in> snapshot_ids state"
  shows "\<exists>obj'. map_of (craneObjects (updateThreeScene g state s)) k = Some obj' \<and>
          placement_geometry obj' = placement_geometry obj"
proof (cases "isInitialized s")
  case False
  with assms(1) show ?thesis by (simp add: updateThreeScene_def)
next
  case True
  from placement_reconcileCranes [OF assms(1)] assms(2) show ?thesis
    by (simp add: craneObjects_updateThreeScene [OF True] map_of_filter_keys)
qed

subsection \<open>Discarded warning lines\<close>







lemma warningLines_reconcileCrane [simp]:
  "warningLines (reconcileCrane al c i s) = warningLines s"
  by (simp add: reconcileCrane_def updateCraneObject_eq createCraneObject_def)

lemma warningLines_reconcileCranes [simp]:
  "warningLines (reconcileCranes al cs i s) = warningLines s"
  by (induction cs arbitrary: i s) simp_all

lemma warningLines_removeIfDeleted [simp]:
  "warningLines (removeIfDeleted cs k s) = warningLines s"
  by (simp add: removeIfDeleted_def split: option.splits)

lemma warningLines_fold_removeIfDeleted [simp]:
  "warningLines (fold (removeIfDeleted cs) ks s) = warningLines s"
  by (induction ks arbitrary: s) simp_all

lemma warningLines_removeDeleted [simp]: "warningLines (removeDeleted cs s) = warningLines s"
  by (simp add: removeDeleted_def)





subsection \<open>What the first loop leaves in an object\<close>

lemma map_of_reconcileCranes_other:
  "k \<notin> crane_id ` set cs \<Longrightarrow>
   map_of (craneObjects (reconcileCranes al cs i s)) k = map_of (craneObjects s) k"
proof (induction cs arbitrary: i s)
  case Nil
  show ?case by simp
next
  case (Cons c cs)
  from Cons.prems have "crane_id c \<noteq> k" and "k \<notin> crane_id ` set cs"
    by auto
  then show ?case
    by (simp add: Cons.IH map_of_reconcileCrane_other)
qed

lemma map_of_snoc_absent: "k \<notin> fst ` set xs \<Longrightarrow> map_of (xs @ [(k, v)]) k = Some v"
  by (induction xs) auto

lemma map_of_reconcileCrane_written:
  "\<exists>obj0. map_of (craneObjects (reconcileCrane al c i s)) (crane_id c) =
            Some (writeCraneObject c (map_of al (crane_id c)) obj0)"
proof (cases "crane_id c \<in> fst ` set (craneObjects s)")
  case True
  then have "map_of (craneObjects s) (crane_id c) \<noteq> None"
    by (simp add: map_of_eq_None_iff)
  then obtain obj where "map_of (craneObjects s) (crane_id c) = Some obj"
    by blast
  then show ?thesis
    by (auto simp: map_of_reconcileCrane_present)
next
  case False
  then show ?thesis
    by (auto simp add: craneObjects_reconcileCrane map_of_map_entry_same map_of_snoc_absent
        simp del: map_of_append)
qed

lemma map_of_reconcileCranes_written:
  "distinct (map crane_id cs) \<Longrightarrow> c \<in> set cs \<Longrightarrow>
   \<exists>obj0. map_of (craneObjects (reconcileCranes al cs i s)) (crane_id c) =
            Some (writeCraneObject c (map_of al (crane_id c)) obj0)"
proof (induction cs arbitrary: i s)
  case Nil
  then show ?case by simp
next
  case (Cons d cs)
  show ?case
  proof (cases "c = d")
    case True
    with Cons.prems(1) have "crane_id c \<notin> crane_id ` set cs"
      by simp
    then show ?thesis
      using map_of_reconcileCrane_written [of al c i s] True
      by (simp add: map_of_reconcileCranes_other)
  next
    case False
    with Cons.prems show ?thesis
      by (simp add: Cons.IH)
  qed
qed

lemma written_updateThreeScene:
  assumes "isInitialized s" and "distinct (map crane_id (snapshot_cranes state))"
    and "c \<in> set (snapshot_cranes state)"
  shows "\<exists>obj0. map_of (craneObjects (updateThreeScene g state s)) (crane_id c) =
            Some (writeCraneObject c (map_of (snapshot_craneAlerts state) (crane_id c)) obj0)"
  using map_of_reconcileCranes_written [OF assms(2,3), of "snapshot_craneAlerts state" 0 s] assms(3)
  by (simp add: craneObjects_updateThreeScene [OF assms(1)] map_of_filter_keys snapshot_ids_def)

subsection \<open>Alert colouring\<close>

lemma tipMesh_color_writeCraneObject:
  "tipMesh_color (writeCraneObject c a obj) =
     (case a of
        None \<Rightarrow> 0xffffff
      | Some l \<Rightarrow> if l \<noteq> [] \<and> l \<noteq> ''NORMAL''
                  then js_or (ALERT_LEVEL_COLORS l) (color obj) else 0xffffff)"
  by (simp add: writeCraneObject_def Let_def split: option.splits)

lemma neutral_writeCraneObject:
  "a = None \<or> a = Some [] \<or> a = Some ''NORMAL'' \<Longrightarrow>
   tipMesh_color (writeCraneObject c a obj) = 0xffffff \<and>
   radiusMesh_color (writeCraneObject c a obj) = color obj \<and>
   radiusMesh_opacity (writeCraneObject c a obj) = 15 / 100"
  by (auto simp: writeCraneObject_def Let_def)

lemma high_level_writeCraneObject:
  "l = ''WARNING'' \<or> l = ''DANGER'' \<Longrightarrow>
   radiusMesh_color (writeCraneObject c (Some l) obj) = level_color l \<and>
   radiusMesh_opacity (writeCraneObject c (Some l) obj) = 25 / 100"
  by (auto simp: writeCraneObject_def Let_def level_color_def ALERT_LEVEL_COLORS_def js_or_def)

lemma other_level_writeCraneObject:
  "l \<noteq> [] \<Longrightarrow> l \<noteq> ''NORMAL'' \<Longrightarrow> l \<noteq> ''WARNING'' \<Longrightarrow> l \<noteq> ''DANGER'' \<Longrightarrow>
   radiusMesh_color (writeCraneObject c (Some l) obj) = radiusMesh_color obj \<and>
   radiusMesh_opacity (writeCraneObject c (Some l) obj) = radiusMesh_opacity obj"
  by (simp add: writeCraneObject_def Let_def)

section \<open>Properties of the transport channel\<close>

lemma timers_updateConnectionStatus [simp]:
  "timers (updateConnectionStatus b c) = timers c"
  "reconnectTimer (updateConnectionStatus b c) = reconnectTimer c"
  "next_handle (updateConnectionStatus b c) = next_handle c"
  "isConnected (updateConnectionStatus b c) = isConnected c"
  by (simp_all add: updateConnectionStatus_def split: option.splits)

lemma connection_status_updateConnectionStatus:
  "connection_status (updateConnectionStatus False c) =
     map_option shown_disconnected (connection_status c)"
  by (simp add: updateConnectionStatus_def shown_disconnected_def split: option.splits)

lemma timer_inv_scheduleReconnect: "timer_inv c \<Longrightarrow> timer_inv (scheduleReconnect c)"
  by (auto simp: timer_inv_def scheduleReconnect_def split: option.splits)

lemma timer_inv_connectWebSocket: "timer_inv c \<Longrightarrow> timer_inv (connectWebSocket b c)"
  by (auto simp: timer_inv_def connectWebSocket_def scheduleReconnect_def Let_def split: option.splits)

lemma timer_inv_onopen: "timer_inv (onopen c) = (timers (onopen c) = [])"
  by (auto simp: timer_inv_def onopen_def Let_def clearTimeout_def split: option.splits)

lemma timers_onopen: "timer_inv c \<Longrightarrow> timers (onopen c) = [] \<and> reconnectTimer (onopen c) = None"
  by (auto simp: timer_inv_def onopen_def Let_def clearTimeout_def split: option.splits)

lemma timer_inv_onclose: "timer_inv c \<Longrightarrow> timer_inv (onclose c)"
  by (auto simp: timer_inv_def onclose_def scheduleReconnect_def split: option.splits)

lemma timer_inv_onerror: "timer_inv c \<Longrightarrow> timer_inv (onerror c)"
  by (auto simp: timer_inv_def onerror_def split: option.splits)

lemma timer_inv_set_readyState [simp]: "timer_inv (set_readyState h r c) = timer_inv c"
  by (simp add: timer_inv_def set_readyState_def)

lemma timer_inv_reconnectCallback:
  "timer_inv c \<Longrightarrow> t \<in> fst ` set (timers c) \<Longrightarrow> timer_inv (reconnectCallback b (clearTimeout t c))"
  by (auto simp: timer_inv_def reconnectCallback_def clearTimeout_def connectWebSocket_def
      scheduleReconnect_def Let_def split: option.splits)

lemma timer_inv_onmessage: "timer_inv (chan (onmessage p g d a)) = timer_inv (chan a)"
  by (simp add: onmessage_def onDataReceived_def Let_def timer_inv_def split: option.splits)

lemma timer_inv_deliver: "timer_inv (chan a) \<Longrightarrow> timer_inv (chan (deliver p g ev a))"
  by (cases ev)
    (simp_all add: timer_inv_connectWebSocket timer_inv_onopen timers_onopen timer_inv_onclose
      timer_inv_onerror timer_inv_onmessage timer_inv_reconnectCallback)

lemma timer_inv_reachable: "reachable p g a \<Longrightarrow> timer_inv (chan a)"
proof (induction rule: reachable.induct)
  case (reachable_init a el)
  then show ?case by (simp add: timer_inv_def channel_init_def)
next
  case (reachable_step a ev)
  then show ?case by (simp add: timer_inv_deliver)
qed

lemma timer_inv_length: "timer_inv c \<Longrightarrow> length (timers c) \<le> 1"
  by (simp add: timer_inv_def split: option.splits)

lemma timers_onclose: "timer_inv c \<Longrightarrow> length (timers (onclose c)) = 1"
  by (auto simp: timer_inv_def onclose_def scheduleReconnect_def split: option.splits)

lemma closes_one_timer:
  "timer_inv (chan a) \<Longrightarrow> hs \<noteq> [] \<Longrightarrow>
   length (timers (chan (fold (deliver p g) (map Ev_close hs) a))) = 1"
proof (induction hs arbitrary: a rule: rev_induct)
  case Nil
  then show ?case by simp
next
  case (snoc h hs)
  have "timer_inv (chan (fold (deliver p g) (map Ev_close hs) a))"
    using snoc.prems(1) by (induction hs rule: rev_induct) (simp_all add: timer_inv_onclose)
  then show ?case
    by (simp add: timers_onclose)
qed

section \<open>The claims\<close>



text \<open>
  C2. Running \<open>updateThreeScene\<close> a second time with the same snapshot, from any state,
  leaves \<open>craneObjects\<close> as the first run left it: the same ids, the same objects (their
  root groups have the same handles, so none was destroyed or created), the same boom
  rotations and material colours. The scene has the same root groups, and the rebuilt
  warning lines show what they showed: the second run does what rebuilding the overlay
  alone does.
\<close>

theorem reconcile_idempotent:
  "craneObjects (updateThreeScene g state (updateThreeScene g state s)) =
     craneObjects (updateThreeScene g state s) \<and>
   live_ids (updateThreeScene g state (updateThreeScene g state s)) =
     live_ids (updateThreeScene g state s) \<and>
   filter is_group (scene (updateThreeScene g state (updateThreeScene g state s))) =
     filter is_group (scene (updateThreeScene g state s)) \<and>
   map line_shape (warningLines (updateThreeScene g state (updateThreeScene g state s))) =
     map line_shape (warningLines (updateThreeScene g state s)) \<and>
   updateThreeScene g state (updateThreeScene g state s) =
     (if isInitialized s
      then updateWarningLines g (Some (snapshot_collisions state)) (updateThreeScene g state s)
      else s)"
proof (cases "isInitialized s")
  case False
  then show ?thesis by (simp add: updateThreeScene_def)
next
  case True
  let ?s1 = "updateThreeScene g state s"
  have twice: "updateThreeScene g state ?s1 =
                 updateWarningLines g (Some (snapshot_collisions state)) ?s1"
    using True by (simp add: updateThreeScene_twice)
  have objs: "craneObjects (updateThreeScene g state ?s1) = craneObjects ?s1"
    by (simp add: twice)
  have groups: "filter is_group (scene (updateThreeScene g state ?s1)) = filter is_group (scene ?s1)"
    by (simp add: twice groups_updateWarningLines)
  have "map line_shape (warningLines (updateThreeScene g state ?s1)) =
          expected_overlay g (craneObjects ?s1) (snapshot_collisions state)"
    by (simp add: twice shape_updateWarningLines)
  also have "\<dots> = map line_shape (warningLines ?s1)"
    using True by (simp add: shape_updateThreeScene)
  finally show ?thesis
    using objs groups twice True by (simp add: live_ids_def)
qed

text \<open>
  C2, witness: the scene that holds crane A, given twice the snapshot with cranes A and B at
  DANGER.
\<close>

theorem reconcile_idempotent_witness:
  "craneObjects (updateThreeScene tipWorldPosition (snap_AB ''DANGER'')
                  (updateThreeScene tipWorldPosition (snap_AB ''DANGER'') scene_with_A)) =
     craneObjects (updateThreeScene tipWorldPosition (snap_AB ''DANGER'') scene_with_A) \<and>
   live_ids (updateThreeScene tipWorldPosition (snap_AB ''DANGER'') scene_with_A) = {''A'', ''B''} \<and>
   filter is_group (scene (updateThreeScene tipWorldPosition (snap_AB ''DANGER'')
                  (updateThreeScene tipWorldPosition (snap_AB ''DANGER'') scene_with_A))) =
     [Group_node 0, Group_node 1]"
proof -
  have groups: "filter is_group (scene (updateThreeScene tipWorldPosition (snap_AB ''DANGER'') scene_with_A)) =
                  [Group_node 0, Group_node 1]"
    by (simp add: updateThreeScene_def Let_def scene_with_A_def
        snapshot_cranes_def snapshot_collisions_def snapshot_craneAlerts_def snap_AB_def
        sample_snapshot_def crane_A_def crane_B_def reconcileCrane_def createCraneObject_def
        updateCraneObject_def removeDeleted_def removeIfDeleted_def updateWarningLines_def
        drawWarningLine_def is_group_def)
  have ids: "live_ids (updateThreeScene tipWorldPosition (snap_AB ''DANGER'') scene_with_A) = {''A'', ''B''}"
    by (simp add: updateThreeScene_def Let_def scene_with_A_def
        snapshot_cranes_def snapshot_collisions_def snapshot_craneAlerts_def snap_AB_def
        sample_snapshot_def crane_A_def crane_B_def reconcileCrane_def createCraneObject_def
        updateCraneObject_def removeDeleted_def removeIfDeleted_def updateWarningLines_def
        drawWarningLine_def live_ids_def insert_commute)
  from reconcile_idempotent [of tipWorldPosition "snap_AB ''DANGER''" scene_with_A]
  have "craneObjects (updateThreeScene tipWorldPosition (snap_AB ''DANGER'')
                  (updateThreeScene tipWorldPosition (snap_AB ''DANGER'') scene_with_A)) =
          craneObjects (updateThreeScene tipWorldPosition (snap_AB ''DANGER'') scene_with_A)"
    and "filter is_group (scene (updateThreeScene tipWorldPosition (snap_AB ''DANGER'')
                  (updateThreeScene tipWorldPosition (snap_AB ''DANGER'') scene_with_A))) =
          filter is_group (scene (updateThreeScene tipWorldPosition (snap_AB ''DANGER'') scene_with_A))"
    by blast+
  with groups ids show ?thesis by simp
qed

text \<open>
  C3, as the code has it. On every update of an existing object the slew angle \<open>a\<close> gives
  the boom group the rotation \<open>-a * pi / 180\<close> about the vertical axis, and the luffing
  angle \<open>b\<close> gives it the rotation \<open>b * pi / 180\<close> about the z axis, with no change of
  sign. So it is after \<open>updateThreeScene\<close> for every crane of a snapshot whose ids are
  distinct. Both are values of a function of the angle alone.
\<close>

theorem boom_rotation_from_angles:
  "(map_of (craneObjects s) (crane_id c) = Some obj \<longrightarrow>
      (\<exists>obj'. map_of (craneObjects (updateCraneObject c a s)) (crane_id c) = Some obj' \<and>
              boomGroup_rotation_y obj' = - (slew_angle c * pi / 180) \<and>
              boomGroup_rotation_z obj' = luffing_angle c * pi / 180)) \<and>
   (isInitialized s \<and> distinct (map crane_id (snapshot_cranes state)) \<and>
    c \<in> set (snapshot_cranes state) \<longrightarrow>
      (\<exists>obj'. map_of (craneObjects (updateThreeScene g state s)) (crane_id c) = Some obj' \<and>
              boomGroup_rotation_y obj' = - (slew_angle c * pi / 180) \<and>
              boomGroup_rotation_z obj' = luffing_angle c * pi / 180))"
proof (intro conjI impI)
  assume "map_of (craneObjects s) (crane_id c) = Some obj"
  then show "\<exists>obj'. map_of (craneObjects (updateCraneObject c a s)) (crane_id c) = Some obj' \<and>
              boomGroup_rotation_y obj' = - (slew_angle c * pi / 180) \<and>
              boomGroup_rotation_z obj' = luffing_angle c * pi / 180"
    by (simp add: craneObjects_updateCraneObject map_of_map_entry_same writeCraneObject_def Let_def
        split: option.splits)
next
  assume "isInitialized s \<and> distinct (map crane_id (snapshot_cranes state)) \<and>
          c \<in> set (snapshot_cranes state)"
  then obtain obj0 where
    "map_of (craneObjects (updateThreeScene g state s)) (crane_id c) =
       Some (writeCraneObject c (map_of (snapshot_craneAlerts state) (crane_id c)) obj0)"
    using written_updateThreeScene [of s state c g] by blast
  then show "\<exists>obj'. map_of (craneObjects (updateThreeScene g state s)) (crane_id c) = Some obj' \<and>
              boomGroup_rotation_y obj' = - (slew_angle c * pi / 180) \<and>
              boomGroup_rotation_z obj' = luffing_angle c * pi / 180"
    by (simp add: writeCraneObject_def Let_def split: option.splits)
qed

text \<open>
  C3, witness: crane C (slew angle 45, luffing angle 30), updated right after its object
  was created, and as the only crane of the first snapshot of a scene.
\<close>

theorem boom_rotation_from_angles_witness:
  "map_of (craneObjects (createCraneObject crane_C 0 scene_ready)) (crane_id crane_C) =
     Some (newCraneObject crane_C 0 0) \<and>
   (\<exists>obj'. map_of (craneObjects (updateCraneObject crane_C None (createCraneObject crane_C 0 scene_ready)))
             ''C'' = Some obj' \<and>
           boomGroup_rotation_y obj' = - (pi / 4) \<and> boomGroup_rotation_z obj' = pi / 6) \<and>
   isInitialized scene_ready \<and> distinct (map crane_id (snapshot_cranes snap_C)) \<and>
   crane_C \<in> set (snapshot_cranes snap_C) \<and>
   (\<exists>obj'. map_of (craneObjects (updateThreeScene tipWorldPosition snap_C scene_ready)) ''C'' = Some obj' \<and>
           boomGroup_rotation_y obj' = - (pi / 4) \<and> boomGroup_rotation_z obj' = pi / 6)"
proof -
  have h: "map_of (craneObjects (createCraneObject crane_C 0 scene_ready)) (crane_id crane_C) =
             Some (newCraneObject crane_C 0 0)"
    by (simp add: createCraneObject_def scene_ready_def)
  have k: "isInitialized scene_ready \<and> distinct (map crane_id (snapshot_cranes snap_C)) \<and>
           crane_C \<in> set (snapshot_cranes snap_C)"
    by (simp add: scene_ready_def snapshot_cranes_def snap_C_def sample_snapshot_def)
  from boom_rotation_from_angles
         [of "createCraneObject crane_C 0 scene_ready" crane_C "newCraneObject crane_C 0 0" None
             snap_C tipWorldPosition]
       boom_rotation_from_angles
         [of scene_ready crane_C "newCraneObject crane_C 0 0" None snap_C tipWorldPosition]
       h k
  show ?thesis
    by (simp add: crane_C_def)
qed

text \<open>
  C3, counterexample: with a luffing angle of 30 degrees the rotation written is
  \<open>30 * pi / 180\<close>, not \<open>-30 * pi / 180\<close>.
\<close>

theorem luffing_rotation_not_sign_flipped:
  "luffing_angle crane_C = 30 \<and>
   boomGroup_rotation_z (writeCraneObject crane_C None (newCraneObject crane_C 0 0)) \<noteq>
     - (30 * pi / 180)"
  by (simp add: writeCraneObject_def crane_C_def Let_def)



text \<open>
  C5, as the code has it. A close event, whatever the state of the socket, sets
  \<open>isConnected\<close> to false, shows "disconnected" in the status element, and schedules one
  reconnect after 3000 ms when none is scheduled (and nothing when one is). An error event
  sets \<open>isConnected\<close> to false and shows "disconnected", and schedules nothing.
\<close>

theorem close_schedules_error_does_not:
  "isConnected (chan (deliver p g (Ev_close h) a)) = False \<and>
   connection_status (chan (deliver p g (Ev_close h) a)) =
     map_option shown_disconnected (connection_status (chan a)) \<and>
   (if reconnectTimer (chan a) = None
    then timers (chan (deliver p g (Ev_close h) a)) = timers (chan a) @ [(next_handle (chan a), 3000)] \<and>
         reconnectTimer (chan (deliver p g (Ev_close h) a)) = Some (next_handle (chan a))
    else timers (chan (deliver p g (Ev_close h) a)) = timers (chan a) \<and>
         reconnectTimer (chan (deliver p g (Ev_close h) a)) = reconnectTimer (chan a)) \<and>
   isConnected (chan (deliver p g (Ev_error h) a)) = False \<and>
   connection_status (chan (deliver p g (Ev_error h) a)) =
     map_option shown_disconnected (connection_status (chan a)) \<and>
   timers (chan (deliver p g (Ev_error h) a)) = timers (chan a) \<and>
   reconnectTimer (chan (deliver p g (Ev_error h) a)) = reconnectTimer (chan a)"
  by (simp add: onclose_def onerror_def scheduleReconnect_def set_readyState_def
      connection_status_updateConnectionStatus RECONNECT_INTERVAL_def)

text \<open>
  C5, witness: the open channel receives a close event and schedules the reconnect; the
  channel that has one scheduled receives another close event and keeps that one; the
  connecting channel receives an error event and schedules none.
\<close>

theorem close_schedules_error_does_not_witness:
  "reconnectTimer (chan app_open) = None \<and>
   isConnected (chan (deliver sample_parse tipWorldPosition (Ev_close 1) app_open)) = False \<and>
   timers (chan (deliver sample_parse tipWorldPosition (Ev_close 1) app_open)) = [(2, 3000)] \<and>
   reconnectTimer (chan (deliver sample_parse tipWorldPosition (Ev_close 1) app_open)) = Some 2 \<and>
   map_option className
     (connection_status (chan (deliver sample_parse tipWorldPosition (Ev_close 1) app_open))) =
     Some ''status-disconnected'' \<and>
   reconnectTimer (chan app_closed) = Some 2 \<and>
   timers (chan (deliver sample_parse tipWorldPosition (Ev_close 1) app_closed)) = [(2, 3000)] \<and>
   reconnectTimer (chan app_connecting) = None \<and>
   isConnected (chan (deliver sample_parse tipWorldPosition (Ev_error 1) app_connecting)) = False \<and>
   timers (chan (deliver sample_parse tipWorldPosition (Ev_error 1) app_connecting)) = [] \<and>
   map_option className
     (connection_status (chan (deliver sample_parse tipWorldPosition (Ev_error 1) app_connecting))) =
     Some ''status-disconnected''"
proof -
  have closed: "reconnectTimer (chan app_closed) = Some 2 \<and> timers (chan app_closed) = [(2, 3000)]"
    by (simp add: app_closed_def app_start_def channel_init_def connectWebSocket_def onclose_def
        scheduleReconnect_def set_readyState_def updateConnectionStatus_def Let_def
        RECONNECT_INTERVAL_def)
  from close_schedules_error_does_not [of sample_parse tipWorldPosition 1 app_open]
  have 1: "reconnectTimer (chan app_open) = None \<and>
   isConnected (chan (deliver sample_parse tipWorldPosition (Ev_close 1) app_open)) = False \<and>
   timers (chan (deliver sample_parse tipWorldPosition (Ev_close 1) app_open)) = [(2, 3000)] \<and>
   reconnectTimer (chan (deliver sample_parse tipWorldPosition (Ev_close 1) app_open)) = Some 2 \<and>
   map_option className
     (connection_status (chan (deliver sample_parse tipWorldPosition (Ev_close 1) app_open))) =
     Some ''status-disconnected''"
    by (simp add: app_open_def chan_open_def shown_disconnected_def)
  from close_schedules_error_does_not [of sample_parse tipWorldPosition 1 app_closed] closed
  have 2: "timers (chan (deliver sample_parse tipWorldPosition (Ev_close 1) app_closed)) = [(2, 3000)]"
    by simp
  from close_schedules_error_does_not [of sample_parse tipWorldPosition 1 app_connecting]
  have 3: "reconnectTimer (chan app_connecting) = None \<and>
   isConnected (chan (deliver sample_parse tipWorldPosition (Ev_error 1) app_connecting)) = False \<and>
   timers (chan (deliver sample_parse tipWorldPosition (Ev_error 1) app_connecting)) = [] \<and>
   map_option className
     (connection_status (chan (deliver sample_parse tipWorldPosition (Ev_error 1) app_connecting))) =
     Some ''status-disconnected''"
    by (simp add: app_connecting_def chan_connecting_def shown_disconnected_def status_el0_def)
  from 1 2 3 closed show ?thesis by simp
qed

text \<open>
  C5, counterexample: the connecting channel has no reconnect scheduled; after an error
  event on its socket there is still none.
\<close>

theorem error_event_schedules_nothing:
  "reconnectTimer chan_connecting = None \<and>
   timers (onerror chan_connecting) = [] \<and> reconnectTimer (onerror chan_connecting) = None"
  by (simp add: onerror_def chan_connecting_def updateConnectionStatus_def)

text \<open>
  C6. In every reachable state at most one reconnect timer is pending; after any non-empty
  run of close events exactly one is pending; an open event leaves none pending and clears
  \<open>reconnectTimer\<close>; no other event takes a pending timer away, except that a timeout
  that fires is itself no longer pending.
\<close>

theorem single_reconnect_timer:
  assumes "reachable p g a"
  shows "length (timers (chan a)) \<le> 1 \<and>
         (hs \<noteq> [] \<longrightarrow> length (timers (chan (fold (deliver p g) (map Ev_close hs) a))) = 1) \<and>
         timers (chan (deliver p g (Ev_open h) a)) = [] \<and>
         reconnectTimer (chan (deliver p g (Ev_open h) a)) = None \<and>
         (case ev of
            Ev_open _ \<Rightarrow> True
          | Ev_timeout t _ \<Rightarrow>
              set (filter (\<lambda>x. fst x \<noteq> t) (timers (chan a))) \<subseteq> set (timers (chan (deliver p g ev a)))
          | _ \<Rightarrow> set (timers (chan a)) \<subseteq> set (timers (chan (deliver p g ev a))))"
proof -
  from assms have inv: "timer_inv (chan a)"
    by (rule timer_inv_reachable)
  have 1: "length (timers (chan a)) \<le> 1"
    using inv by (rule timer_inv_length)
  have 2: "hs \<noteq> [] \<longrightarrow> length (timers (chan (fold (deliver p g) (map Ev_close hs) a))) = 1"
    using inv by (simp add: closes_one_timer)
  have 3: "timers (chan (deliver p g (Ev_open h) a)) = [] \<and>
           reconnectTimer (chan (deliver p g (Ev_open h) a)) = None"
    using inv by (simp add: timers_onopen)
  have 4: "(case ev of
            Ev_open _ \<Rightarrow> True
          | Ev_timeout t _ \<Rightarrow>
              set (filter (\<lambda>x. fst x \<noteq> t) (timers (chan a))) \<subseteq> set (timers (chan (deliver p g ev a)))
          | _ \<Rightarrow> set (timers (chan a)) \<subseteq> set (timers (chan (deliver p g ev a))))"
    by (cases ev)
      (auto simp: connectWebSocket_def scheduleReconnect_def Let_def onclose_def onerror_def
        set_readyState_def onmessage_def onDataReceived_def reconnectCallback_def clearTimeout_def
        split: option.splits)
  from 1 2 3 4 show ?thesis by simp
qed

text \<open>
  C6, witness: the page has loaded and the socket has closed, so a reconnect is pending. Two
  more close events, with no open event between, leave one timer pending; an open event
  cancels it; an error event leaves it pending.
\<close>

theorem single_reconnect_timer_witness:
  "reachable sample_parse tipWorldPosition app_closed \<and>
   timers (chan app_closed) = [(2, 3000)] \<and>
   timers (chan (fold (deliver sample_parse tipWorldPosition) (map Ev_close [1, 1]) app_closed)) =
     [(2, 3000)] \<and>
   timers (chan (deliver sample_parse tipWorldPosition (Ev_open 1) app_closed)) = [] \<and>
   timers (chan (deliver sample_parse tipWorldPosition (Ev_error 1) app_closed)) = [(2, 3000)]"
proof -
  have "reachable sample_parse tipWorldPosition app_start"
    by (rule reachable_init [of _ "Some status_el0"]) (simp add: app_start_def)
  then have "reachable sample_parse tipWorldPosition
               (deliver sample_parse tipWorldPosition (Ev_load True) app_start)"
    by (rule reachable_step)
  then have "reachable sample_parse tipWorldPosition
               (deliver sample_parse tipWorldPosition (Ev_close 1)
                  (deliver sample_parse tipWorldPosition (Ev_load True) app_start))"
    by (rule reachable_step)
  then have r: "reachable sample_parse tipWorldPosition app_closed"
    by (simp add: app_closed_def)
  have now: "timers (chan app_closed) = [(2, 3000)]"
    by (simp add: app_closed_def app_start_def channel_init_def connectWebSocket_def onclose_def
        scheduleReconnect_def set_readyState_def updateConnectionStatus_def Let_def
        RECONNECT_INTERVAL_def)
  have closes: "timers (chan (fold (deliver sample_parse tipWorldPosition) (map Ev_close [1, 1])
                   app_closed)) = [(2, 3000)]"
    by (simp add: app_closed_def app_start_def channel_init_def connectWebSocket_def onclose_def
        scheduleReconnect_def set_readyState_def updateConnectionStatus_def Let_def
        RECONNECT_INTERVAL_def)
  have err: "timers (chan (deliver sample_parse tipWorldPosition (Ev_error 1) app_closed)) =
               [(2, 3000)]"
    by (simp add: app_closed_def app_start_def channel_init_def connectWebSocket_def onclose_def
        onerror_def scheduleReconnect_def set_readyState_def updateConnectionStatus_def Let_def
        RECONNECT_INTERVAL_def)
  from single_reconnect_timer [OF r, of "[1, 1]" 1 "Ev_error 1"] r now closes err show ?thesis
    by simp
qed




text \<open>
  C8. A frame whose payload does not parse adds one error line to the console and changes
  nothing else: not the scene state (live mapping, overlay, scene children), not the
  connection state or the reconnect timer, not \<open>lastData\<close> or \<open>currentState\<close>, and no
  panel renderer is called.
\<close>

theorem malformed_frame_only_logs:
  assumes "JSON_parse event_data = None"
  shows "onmessage JSON_parse g event_data a =
           a\<lparr> chan := (chan a)\<lparr> console := console (chan a) @ [Error_parse] \<rparr> \<rparr> \<and>
         three (onmessage JSON_parse g event_data a) = three a \<and>
         currentState (onmessage JSON_parse g event_data a) = currentState a \<and>
         panel_calls (onmessage JSON_parse g event_data a) = panel_calls a \<and>
         ws (chan (onmessage JSON_parse g event_data a)) = ws (chan a) \<and>
         sockets (chan (onmessage JSON_parse g event_data a)) = sockets (chan a) \<and>
         isConnected (chan (onmessage JSON_parse g event_data a)) = isConnected (chan a) \<and>
         reconnectTimer (chan (onmessage JSON_parse g event_data a)) = reconnectTimer (chan a) \<and>
         timers (chan (onmessage JSON_parse g event_data a)) = timers (chan a) \<and>
         lastData (chan (onmessage JSON_parse g event_data a)) = lastData (chan a) \<and>
         connection_status (chan (onmessage JSON_parse g event_data a)) = connection_status (chan a)"
  using assms by (simp add: onmessage_def)

text \<open>
  C8, witness: the open console with crane A in the scene receives a frame that is cut
  off.
\<close>

theorem malformed_frame_only_logs_witness:
  "sample_parse ''{cranes: ['' = None \<and>
   three (deliver sample_parse tipWorldPosition (Ev_message 1 ''{cranes: ['') app_open) = scene_with_A \<and>
   isConnected (chan (deliver sample_parse tipWorldPosition (Ev_message 1 ''{cranes: ['') app_open)) \<and>
   console (chan (deliver sample_parse tipWorldPosition (Ev_message 1 ''{cranes: ['') app_open)) =
     [Log_connect_attempt, Log_connect_success, Error_parse]"
proof -
  have h: "sample_parse ''{cranes: ['' = None"
    by (simp add: sample_parse_def)
  from malformed_frame_only_logs [of sample_parse "''{cranes: [''" tipWorldPosition app_open] h show ?thesis
    by (simp add: app_open_def chan_open_def)
qed

text \<open>
  C9, the code at the failing input. Crane A at CAUTION: when the snapshot before had it at
  DANGER the working-radius ring stays red at opacity 0.25, and when the object is new the
  ring has the crane's own colour at opacity 0.15. The tip marker is yellow in both.
\<close>

theorem caution_keeps_previous_ring_color:
  "map_option (\<lambda>obj. (tipMesh_color obj, radiusMesh_color obj, radiusMesh_opacity obj))
     (map_of (craneObjects (updateThreeScene tipWorldPosition (snap_A ''CAUTION'')
                (updateThreeScene tipWorldPosition (snap_A ''DANGER'') scene_ready))) ''A'') =
     Some (0xFFD700, 0xFF0000, 25 / 100) \<and>
   map_option (\<lambda>obj. (tipMesh_color obj, radiusMesh_color obj, radiusMesh_opacity obj))
     (map_of (craneObjects (updateThreeScene tipWorldPosition (snap_A ''CAUTION'') scene_ready)) ''A'') =
     Some (0xFFD700, 0x4a90d9, 15 / 100)"
  by (simp add: updateThreeScene_def Let_def scene_ready_def
      snapshot_cranes_def snapshot_collisions_def snapshot_craneAlerts_def snap_A_def
      sample_snapshot_def crane_A_def reconcileCrane_def createCraneObject_def
      updateCraneObject_def removeDeleted_def removeIfDeleted_def updateWarningLines_def
      writeCraneObject_def newCraneObject_def CRANE_COLORS_def ALERT_LEVEL_COLORS_def js_or_def)

text \<open>
  C10. An entity that already has a Visual Object keeps the object's root group, placement
  and geometry through \<open>updateThreeScene\<close>, whatever base position, mast height or boom
  length the snapshot carries for it: the per-entity update changes nothing but the boom
  rotations and the material colours and opacity. The base position is turned into the
  root placement in the object that \<open>createCraneObject\<close> builds.
\<close>

theorem update_keeps_placement_geometry:
  assumes "map_of (craneObjects s) k = Some obj" and "k \<in> snapshot_ids state"
  shows "(\<exists>obj'. map_of (craneObjects (updateThreeScene g state s)) k = Some obj' \<and>
                 placement_geometry obj' = placement_geometry obj) \<and>
         placement_geometry (writeCraneObject c a obj) = placement_geometry obj \<and>
         writeCraneObject c a obj =
           obj\<lparr> boomGroup_rotation_y := boomGroup_rotation_y (writeCraneObject c a obj),
                boomGroup_rotation_z := boomGroup_rotation_z (writeCraneObject c a obj),
                tipMesh_color := tipMesh_color (writeCraneObject c a obj),
                radiusMesh_color := radiusMesh_color (writeCraneObject c a obj),
                radiusMesh_opacity := radiusMesh_opacity (writeCraneObject c a obj) \<rparr> \<and>
         group_position (newCraneObject c i h) = (base_x c, 0, base_y c)"
proof -
  have "writeCraneObject c a obj =
           obj\<lparr> boomGroup_rotation_y := boomGroup_rotation_y (writeCraneObject c a obj),
                boomGroup_rotation_z := boomGroup_rotation_z (writeCraneObject c a obj),
                tipMesh_color := tipMesh_color (writeCraneObject c a obj),
                radiusMesh_color := radiusMesh_color (writeCraneObject c a obj),
                radiusMesh_opacity := radiusMesh_opacity (writeCraneObject c a obj) \<rparr>"
    by (simp add: writeCraneObject_def Let_def split: option.splits)
  moreover have "group_position (newCraneObject c i h) = (base_x c, 0, base_y c)"
    by (simp add: newCraneObject_def Let_def)
  ultimately show ?thesis
    using placement_updateThreeScene [OF assms, of g] by simp
qed

text \<open>
  C10, witness: crane A stands at (10, 20); a snapshot that reports it at (99, 77) with
  another mast height and boom length leaves its object where and as it was.
\<close>

theorem update_keeps_placement_geometry_witness:
  "map_of (craneObjects scene_with_A) ''A'' = Some (newCraneObject crane_A 0 0) \<and>
   ''A'' \<in> snapshot_ids snap_A_moved \<and>
   (\<exists>obj'. map_of (craneObjects (updateThreeScene tipWorldPosition snap_A_moved scene_with_A)) ''A'' =
             Some obj' \<and>
           group_position obj' = (10, 0, 20) \<and> mastGeom obj' = (2, 40, 2) \<and> boomLength obj' = 30)"
proof -
  have h1: "map_of (craneObjects scene_with_A) ''A'' = Some (newCraneObject crane_A 0 0)"
    by (simp add: scene_with_A_def)
  have h2: "''A'' \<in> snapshot_ids snap_A_moved"
    by (simp add: snapshot_ids_def snapshot_cranes_def snap_A_moved_def sample_snapshot_def
        crane_A_moved_def)
  from update_keeps_placement_geometry [OF h1 h2, of tipWorldPosition]
  obtain obj' where
    "map_of (craneObjects (updateThreeScene tipWorldPosition snap_A_moved scene_with_A)) ''A'' = Some obj'"
    and "placement_geometry obj' = placement_geometry (newCraneObject crane_A 0 0)"
    by blast
  then have "map_of (craneObjects (updateThreeScene tipWorldPosition snap_A_moved scene_with_A)) ''A'' =
               Some obj' \<and>
             group_position obj' = (10, 0, 20) \<and> mastGeom obj' = (2, 40, 2) \<and> boomLength obj' = 30"
    by (simp add: placement_geometry_def newCraneObject_def crane_A_def Let_def)
  with h1 h2 show ?thesis by blast
qed

end
